theory Spec2Isabelle
  imports Main "HOL-Library.Finite_Map"
begin

section \<open>The preprocessor directives of the two umbrella headers\<close>

text \<open>
  The two files under verification, \<^verbatim>\<open>include/test.h\<close> and
  \<^verbatim>\<open>include/sbia/basis.h\<close>, consist of preprocessor directives only. They are
  embedded as values of a small directive syntax, and the C++ preprocessor is the
  interpreter \<open>run\<close> below.

  A macro is object-like and its replacement list is one of: nothing
  (\<^verbatim>\<open>#define X\<close>), an integer constant kept as the integer it denotes
  (\<^verbatim>\<open>#define X 1\<close>), one identifier (\<^verbatim>\<open>#define X ON\<close>), or one
  string literal (\<^verbatim>\<open>#define X "yes"\<close>).
\<close>

datatype macro_body = Blank | Number int | Name string | Str_lit string

type_synonym macro_table = "(string, macro_body) fmap"

datatype pp_error =
    Missing_expression
  | Invalid_expression
  | Redefined string
  | Include_failed string

datatype include_form = Angled | Quoted

datatype directive =
    Pragma_once
  | Define string macro_body
  | Undef string
  | Include include_form string
  | Ifdef string "directive list" "directive list"
  | Ifndef string "directive list" "directive list"
  | If string "directive list" "directive list"
  | Line string

text \<open>
  The state of one translation unit: the macro table, the files marked
  \<^verbatim>\<open>#pragma once\<close>, and the lines handed on to the compiler proper (declarations
  and definitions, none of which the two headers write themselves).
\<close>

record pp_state =
  macros :: macro_table
  once :: "string set"
  emitted :: "string list"

subsection \<open>The controlling expression of \<^verbatim>\<open>#if NAME\<close>\<close>

text \<open>
  Macro replacement of an identifier. A macro name met again while it is being replaced
  is left alone (the list \<open>hide\<close>), so the rescan ends on every finite macro table.
\<close>

function expand :: "macro_table \<Rightarrow> string list \<Rightarrow> string \<Rightarrow> macro_body" where
  "expand M hide n =
     (if n \<in> set hide then Name n
      else case fmlookup M n of
             None \<Rightarrow> Name n
           | Some (Name m) \<Rightarrow> expand M (n # hide) m
           | Some b \<Rightarrow> b)"
  by pat_completeness auto
termination
proof (relation "measure (\<lambda>(M, hide, n). card (fmdom' M - set hide))")
  show "wf (measure (\<lambda>(M, hide, n). card (fmdom' M - set hide)))"
    by simp
next
  fix M :: macro_table and hide :: "string list" and n :: string
    and b :: macro_body and m :: string
  assume fresh: "n \<notin> set hide" and look: "fmlookup M n = Some b"
  from look have "n \<in> fmdom' M"
    by (rule fmdom'I)
  with fresh have "fmdom' M - set (n # hide) \<subset> fmdom' M - set hide"
    by auto
  then have "card (fmdom' M - set (n # hide)) < card (fmdom' M - set hide)"
    by (intro psubset_card_mono) simp_all
  then show "((M, n # hide, m), (M, hide, n))
      \<in> measure (\<lambda>(M, hide, n). card (fmdom' M - set hide))"
    by simp
qed

declare expand.simps [simp del]

text \<open>
  The names whose table entries that replacement looks at, in order: the identifier
  itself first, then each macro it passes through.
\<close>

function replacement_path :: "macro_table \<Rightarrow> string list \<Rightarrow> string \<Rightarrow> string list" where
  "replacement_path M hide n =
     (if n \<in> set hide then [n]
      else case fmlookup M n of
             None \<Rightarrow> [n]
           | Some (Name m) \<Rightarrow> n # replacement_path M (n # hide) m
           | Some b \<Rightarrow> [n])"
  by pat_completeness auto
termination
proof (relation "measure (\<lambda>(M, hide, n). card (fmdom' M - set hide))")
  show "wf (measure (\<lambda>(M, hide, n). card (fmdom' M - set hide)))"
    by simp
next
  fix M :: macro_table and hide :: "string list" and n :: string
    and b :: macro_body and m :: string
  assume fresh: "n \<notin> set hide" and look: "fmlookup M n = Some b"
  from look have "n \<in> fmdom' M"
    by (rule fmdom'I)
  with fresh have "fmdom' M - set (n # hide) \<subset> fmdom' M - set hide"
    by auto
  then have "card (fmdom' M - set (n # hide)) < card (fmdom' M - set hide)"
    by (intro psubset_card_mono) simp_all
  then show "((M, n # hide, m), (M, hide, n))
      \<in> measure (\<lambda>(M, hide, n). card (fmdom' M - set hide))"
    by simp
qed

declare replacement_path.simps [simp del]

text \<open>
  Words that are operators of a controlling expression, not operands: \<^verbatim>\<open>defined\<close>,
  the alternative tokens of C++, and the \<^verbatim>\<open>__has_include\<close> family of C++17 and
  g++. One of them standing alone is no expression.
\<close>

definition operator_words :: "string list" where
  "operator_words =
     [''defined'', ''and'', ''and_eq'', ''bitand'', ''bitor'', ''compl'', ''not'',
      ''not_eq'', ''or'', ''or_eq'', ''xor'', ''xor_eq'',
      ''__has_include'', ''__has_include_next'', ''__has_cpp_attribute'',
      ''__has_attribute'', ''__has_builtin'']"

text \<open>
  After replacement the remaining token is evaluated. In C++ every identifier left over
  is read as \<open>0\<close>, except \<^verbatim>\<open>true\<close> and \<^verbatim>\<open>false\<close>, which keep their
  meaning. No token at all, or a string literal, makes the directive ill-formed. An
  integer is evaluated in the 64-bit type \<^verbatim>\<open>uintmax_t\<close>: a constant too large for
  it is cut down to its low 64 bits, as g++ does, so \<open>2 ^ 64\<close> reads as zero.
\<close>

fun controlling_value :: "macro_body \<Rightarrow> pp_error + bool" where
  "controlling_value Blank = Inl Missing_expression"
| "controlling_value (Number k) = Inr (k mod 2 ^ 64 \<noteq> 0)"
| "controlling_value (Name m) =
     (if m \<in> set operator_words then Inl Invalid_expression else Inr (m = ''true''))"
| "controlling_value (Str_lit l) = Inl Invalid_expression"

definition eval_if :: "macro_table \<Rightarrow> string \<Rightarrow> pp_error + bool" where
  "eval_if M n = controlling_value (expand M [] n)"

subsection \<open>Running directives\<close>

text \<open>
  \<open>inc\<close> is the effect of each header named by an \<^verbatim>\<open>#include\<close>: none of the
  included files belongs to the two under verification, so they are a parameter.
  \<open>src\<close> is the name of the file being read, for \<^verbatim>\<open>#pragma once\<close>.
  Defining a macro that already has a different replacement list is ill-formed.
\<close>

type_synonym include_effect = "include_form \<Rightarrow> string \<Rightarrow> pp_state \<Rightarrow> pp_error + pp_state"

fun run :: "include_effect \<Rightarrow> string \<Rightarrow> directive \<Rightarrow> pp_state \<Rightarrow> pp_error + pp_state"
  and run_all :: "include_effect \<Rightarrow> string \<Rightarrow> directive list \<Rightarrow> pp_state \<Rightarrow> pp_error + pp_state"
  where
  "run inc src Pragma_once s = Inr (s\<lparr>once := insert src (once s)\<rparr>)"
| "run inc src (Define n b) s =
     (case fmlookup (macros s) n of
        None \<Rightarrow> Inr (s\<lparr>macros := fmupd n b (macros s)\<rparr>)
      | Some old \<Rightarrow> if old = b then Inr s else Inl (Redefined n))"
| "run inc src (Undef n) s = Inr (s\<lparr>macros := fmdrop n (macros s)\<rparr>)"
| "run inc src (Include form h) s = inc form h s"
| "run inc src (Ifdef n ds es) s =
     (if fmlookup (macros s) n \<noteq> None then run_all inc src ds s
      else run_all inc src es s)"
| "run inc src (Ifndef n ds es) s =
     (if fmlookup (macros s) n = None then run_all inc src ds s
      else run_all inc src es s)"
| "run inc src (If n ds es) s =
     (case eval_if (macros s) n of
        Inl e \<Rightarrow> Inl e
      | Inr c \<Rightarrow> if c then run_all inc src ds s else run_all inc src es s)"
| "run inc src (Line l) s = Inr (s\<lparr>emitted := emitted s @ [l]\<rparr>)"
| "run_all inc src [] s = Inr s"
| "run_all inc src (d # ds) s =
     (case run inc src d s of
        Inl e \<Rightarrow> Inl e
      | Inr s' \<Rightarrow> run_all inc src ds s')"

text \<open>Reading a whole file: one marked \<^verbatim>\<open>#pragma once\<close> earlier is skipped.\<close>

definition include_file :: "include_effect \<Rightarrow> string \<times> directive list \<Rightarrow> pp_state \<Rightarrow> pp_error + pp_state" where
  "include_file inc f s =
     (if fst f \<in> once s then Inr s else run_all inc (fst f) (snd f) s)"

subsection \<open>The two headers\<close>

text \<open>
  Lines 29 to 46 of \<^verbatim>\<open>test.h\<close>: each output macro is undefined when it was
  defined, then defined from its input macro.
\<close>

definition resolver :: "directive list" where
  "resolver =
     [Ifdef ''GTEST_USE_OWN_TR1_TUPLE'' [Undef ''GTEST_USE_OWN_TR1_TUPLE''] [],
      If ''HAVE_TR1_TUPLE''
        [Define ''GTEST_USE_OWN_TR1_TUPLE'' (Number 0)]
        [Define ''GTEST_USE_OWN_TR1_TUPLE'' (Number 1)],
      Ifdef ''GTEST_HAS_PTHREAD'' [Undef ''GTEST_HAS_PTHREAD''] [],
      If ''HAVE_PTHREAD''
        [Define ''GTEST_HAS_PTHREAD'' (Number 1)]
        [Define ''GTEST_HAS_PTHREAD'' (Number 0)]]"

definition test_h :: "string \<times> directive list" where
  "test_h =
     (''test.h'',
      [Pragma_once,
       Ifndef ''SBIA_BASIS_TEST_H_''
         ([Define ''SBIA_BASIS_TEST_H_'' Blank,
           Include Angled ''sbia/basis/config.h'']
          @ resolver @
          [Include Angled ''sbia/basis/gtest/gtest.h'',
           Include Angled ''sbia/basis/gmock/gmock.h''])
         []])"

definition basis_h :: "string \<times> directive list" where
  "basis_h =
     (''sbia/basis.h'',
      [Pragma_once,
       Ifndef ''SBIA_BASIS_H_''
         [Define ''SBIA_BASIS_H_'' Blank,
          Include Quoted ''tclap/CmdLine.h'',
          Include Quoted ''basis/config.h'',
          Include Quoted ''basis/path.h'']
         []])"

text \<open>
  The resolver on its own. It includes nothing and has no \<^verbatim>\<open>#pragma once\<close>, so
  the first two arguments of \<open>run_all\<close> play no part.
\<close>

definition no_includes :: include_effect where
  "no_includes form h s = Inr s"

definition resolve :: "pp_state \<Rightarrow> pp_error + pp_state" where
  "resolve s = run_all no_includes ''test.h'' resolver s"

text \<open>The two output macros after resolution, or the error that stopped it.\<close>

definition flag_outputs :: "pp_state \<Rightarrow> pp_error + (macro_body option \<times> macro_body option)" where
  "flag_outputs s =
     (case resolve s of
        Inl e \<Rightarrow> Inl e
      | Inr s' \<Rightarrow> Inr (fmlookup (macros s') ''GTEST_USE_OWN_TR1_TUPLE'',
                       fmlookup (macros s') ''GTEST_HAS_PTHREAD''))"

text \<open>The resolver run a second time on the state the first run left.\<close>

definition resolve_twice :: "pp_state \<Rightarrow> pp_error + pp_state" where
  "resolve_twice s = (case resolve s of Inl e \<Rightarrow> Inl e | Inr s' \<Rightarrow> resolve s')"

definition flag_outputs_twice ::
  "pp_state \<Rightarrow> pp_error + (macro_body option \<times> macro_body option)" where
  "flag_outputs_twice s = (case resolve s of Inl e \<Rightarrow> Inl e | Inr s' \<Rightarrow> flag_outputs s')"

subsection \<open>Inputs and outputs of the resolver\<close>

text \<open>
  The build configuration sets an input flag to an integer or leaves it undefined;
  \<open>flag_input\<close> holds of such a table entry and \<open>flag_on\<close> is its truth value
  as \<^verbatim>\<open>#if\<close> reads it.
\<close>

definition flag_input :: "macro_body option \<Rightarrow> bool" where
  "flag_input v = (case v of None \<Rightarrow> True | Some (Number k) \<Rightarrow> True | Some b \<Rightarrow> False)"

definition flag_on :: "macro_body option \<Rightarrow> bool" where
  "flag_on v = (case v of Some (Number k) \<Rightarrow> k mod 2 ^ 64 \<noteq> 0 | _ \<Rightarrow> False)"

text \<open>
  An identifier that stays an identifier when an input flag is replaced by it: it is not
  \<^verbatim>\<open>true\<close>, not an operator word, not the name of a macro on entry, and not
  \<^verbatim>\<open>GTEST_USE_OWN_TR1_TUPLE\<close>, which is a macro by the time
  \<^verbatim>\<open>HAVE_PTHREAD\<close> is read.
\<close>

definition plain_identifier :: "macro_table \<Rightarrow> string \<Rightarrow> bool" where
  "plain_identifier M m =
     (m \<noteq> ''true'' \<and> m \<notin> set operator_words \<and> fmlookup M m = None
      \<and> m \<noteq> ''GTEST_USE_OWN_TR1_TUPLE'')"

definition flag_off :: "macro_table \<Rightarrow> macro_body option \<Rightarrow> bool" where
  "flag_off M v =
     (case v of
        None \<Rightarrow> True
      | Some (Number k) \<Rightarrow> k mod 2 ^ 64 = 0
      | Some (Name m) \<Rightarrow> plain_identifier M m
      | Some b \<Rightarrow> False)"

text \<open>
  The integers that the preprocessor's 64-bit arithmetic can hold, signed or unsigned,
  and the table entries that are such an integer other than zero, resp. that are zero,
  absent or a plain identifier.
\<close>

definition representable :: "int \<Rightarrow> bool" where
  "representable k = (- (2 ^ 63) \<le> k \<and> k < 2 ^ 64)"

definition value_true :: "macro_body option \<Rightarrow> bool" where
  "value_true v = (case v of Some (Number k) \<Rightarrow> representable k \<and> k \<noteq> 0 | _ \<Rightarrow> False)"

definition value_false :: "macro_table \<Rightarrow> macro_body option \<Rightarrow> bool" where
  "value_false M v =
     (case v of
        None \<Rightarrow> True
      | Some (Number k) \<Rightarrow> k = 0
      | Some (Name m) \<Rightarrow> plain_identifier M m
      | Some b \<Rightarrow> False)"

text \<open>A boolean build flag as a table entry: absent, \<open>1\<close> or \<open>0\<close>.\<close>

definition input_flag :: "bool option \<Rightarrow> macro_body option" where
  "input_flag t = (case t of None \<Rightarrow> None | Some b \<Rightarrow> Some (Number (if b then 1 else 0)))"

text \<open>The table with macro \<open>n\<close> undefined (\<open>None\<close>) or defined as \<open>b\<close>.\<close>

definition assign :: "string \<Rightarrow> macro_body option \<Rightarrow> macro_table \<Rightarrow> macro_table" where
  "assign n v M = (case v of None \<Rightarrow> fmdrop n M | Some b \<Rightarrow> fmupd n b M)"

text \<open>A translation unit in which exactly the listed macros are defined.\<close>

definition unit_with :: "(string \<times> macro_body) list \<Rightarrow> pp_state" where
  "unit_with defs = \<lparr>macros = fmap_of_list defs, once = {}, emitted = []\<rparr>"

text \<open>The macro table after each half of the resolver, given how its condition came out.\<close>

definition after_tuple :: "bool \<Rightarrow> macro_table \<Rightarrow> macro_table" where
  "after_tuple c M =
     fmupd ''GTEST_USE_OWN_TR1_TUPLE'' (Number (if c then 0 else 1))
       (fmdrop ''GTEST_USE_OWN_TR1_TUPLE'' M)"

definition after_pthread :: "bool \<Rightarrow> macro_table \<Rightarrow> macro_table" where
  "after_pthread c M =
     fmupd ''GTEST_HAS_PTHREAD'' (Number (if c then 1 else 0))
       (fmdrop ''GTEST_HAS_PTHREAD'' M)"

subsection \<open>What a directive list writes itself\<close>

text \<open>
  The macro names that the directives define or undefine, and the program lines they
  hand to the compiler, both without looking into included files.
\<close>

fun written :: "directive \<Rightarrow> string list"
  and written_all :: "directive list \<Rightarrow> string list" where
  "written Pragma_once = []"
| "written (Define n b) = [n]"
| "written (Undef n) = [n]"
| "written (Include form h) = []"
| "written (Ifdef n ds es) = written_all ds @ written_all es"
| "written (Ifndef n ds es) = written_all ds @ written_all es"
| "written (If n ds es) = written_all ds @ written_all es"
| "written (Line l) = []"
| "written_all [] = []"
| "written_all (d # ds) = written d @ written_all ds"

fun own_lines :: "directive \<Rightarrow> string list"
  and own_lines_all :: "directive list \<Rightarrow> string list" where
  "own_lines Pragma_once = []"
| "own_lines (Define n b) = []"
| "own_lines (Undef n) = []"
| "own_lines (Include form h) = []"
| "own_lines (Ifdef n ds es) = own_lines_all ds @ own_lines_all es"
| "own_lines (Ifndef n ds es) = own_lines_all ds @ own_lines_all es"
| "own_lines (If n ds es) = own_lines_all ds @ own_lines_all es"
| "own_lines (Line l) = [l]"
| "own_lines_all [] = []"
| "own_lines_all (d # ds) = own_lines d @ own_lines_all ds"

section \<open>Properties of the preprocessor model\<close>

subsection \<open>Macro replacement, one case at a time\<close>

lemma expand_hidden: "n \<in> set hide \<Longrightarrow> expand M hide n = Name n"
  by (subst expand.simps) simp

lemma expand_undefined: "fmlookup M n = None \<Longrightarrow> expand M hide n = Name n"
  by (subst expand.simps) simp

lemma expand_number:
  "n \<notin> set hide \<Longrightarrow> fmlookup M n = Some (Number k) \<Longrightarrow> expand M hide n = Number k"
  by (subst expand.simps) simp

lemma expand_blank:
  "n \<notin> set hide \<Longrightarrow> fmlookup M n = Some Blank \<Longrightarrow> expand M hide n = Blank"
  by (subst expand.simps) simp

lemma expand_str_lit:
  "n \<notin> set hide \<Longrightarrow> fmlookup M n = Some (Str_lit l) \<Longrightarrow> expand M hide n = Str_lit l"
  by (subst expand.simps) simp

lemma expand_name:
  "n \<notin> set hide \<Longrightarrow> fmlookup M n = Some (Name m) \<Longrightarrow> expand M hide n = expand M (n # hide) m"
  by (subst expand.simps) simp

lemma replacement_path_hidden:
  "n \<in> set hide \<Longrightarrow> replacement_path M hide n = [n]"
  by (subst replacement_path.simps) simp

lemma replacement_path_undefined:
  "fmlookup M n = None \<Longrightarrow> replacement_path M hide n = [n]"
  by (subst replacement_path.simps) simp

lemma replacement_path_number:
  "fmlookup M n = Some (Number k) \<Longrightarrow> replacement_path M hide n = [n]"
  by (subst replacement_path.simps) simp

lemma replacement_path_name:
  "n \<notin> set hide \<Longrightarrow> fmlookup M n = Some (Name m) \<Longrightarrow>
     replacement_path M hide n = n # replacement_path M (n # hide) m"
  by (subst replacement_path.simps) simp

lemma replacement_path_head: "n \<in> set (replacement_path M hide n)"
  by (subst replacement_path.simps) (simp split: option.splits macro_body.splits)

text \<open>Replacement depends only on the entries along its path.\<close>

lemma expand_agree:
  assumes "\<And>x. x \<in> set (replacement_path M hide n) \<Longrightarrow> fmlookup M' x = fmlookup M x"
  shows "expand M' hide n = expand M hide n"
  using assms
proof (induction M hide n rule: expand.induct)
  case (1 M hide n)
  show ?case
  proof (cases "n \<in> set hide")
    case True
    then show ?thesis by (simp add: expand_hidden)
  next
    case fresh: False
    have same: "fmlookup M' n = fmlookup M n"
      by (rule "1.prems") (rule replacement_path_head)
    show ?thesis
    proof (cases "fmlookup M n")
      case None
      with same show ?thesis by (simp add: expand_undefined)
    next
      case (Some b)
      show ?thesis
      proof (cases b)
        case (Name m)
        have "expand M' (n # hide) m = expand M (n # hide) m"
        proof (rule "1.IH" [OF fresh Some Name])
          fix x
          assume "x \<in> set (replacement_path M (n # hide) m)"
          with fresh Some Name have "x \<in> set (replacement_path M hide n)"
            by (simp add: replacement_path_name)
          then show "fmlookup M' x = fmlookup M x"
            by (rule "1.prems")
        qed
        with fresh same Some Name show ?thesis
          by (simp add: expand_name)
      qed (use fresh same Some in \<open>simp_all add: expand_blank expand_number expand_str_lit\<close>)
    qed
  qed
qed

text \<open>
  Replacing entries by ones that are not identifiers can only cut the path short.
\<close>

lemma replacement_path_override:
  assumes "\<And>x. fmlookup T x = fmlookup M x \<or> (\<forall>m. fmlookup T x \<noteq> Some (Name m))"
  shows "set (replacement_path T hide n) \<subseteq> set (replacement_path M hide n)"
  using assms
proof (induction T hide n rule: replacement_path.induct)
  case (1 T hide n)
  show ?case
  proof (cases "n \<notin> set hide \<and> (\<exists>m. fmlookup T n = Some (Name m))")
    case True
    then obtain m where fresh: "n \<notin> set hide" and look: "fmlookup T n = Some (Name m)"
      by blast
    from look "1.prems" [of n] have look': "fmlookup M n = Some (Name m)"
      by auto
    have "set (replacement_path T (n # hide) m) \<subseteq> set (replacement_path M (n # hide) m)"
      by (rule "1.IH" [OF fresh look refl]) (rule "1.prems")
    with fresh look look' show ?thesis
      by (auto simp: replacement_path_name)
  next
    case False
    then have "replacement_path T hide n = [n]"
      by (subst replacement_path.simps) (auto split: option.splits macro_body.splits)
    then show ?thesis
      by (simp add: replacement_path_head)
  qed
qed

subsection \<open>The undefine-then-define pattern\<close>

lemma run_undef_if_defined:
  "run inc src (Ifdef n [Undef n] []) s = Inr (s\<lparr>macros := fmdrop n (macros s)\<rparr>)"
proof (cases "fmlookup (macros s) n")
  case None
  then have "fmdrop n (macros s) = macros s"
    by (intro fmdrop_idle' fmdom'_notI)
  with None show ?thesis by simp
next
  case (Some b)
  then show ?thesis by simp
qed

lemma run_define_by_if:
  assumes "fmlookup (macros s) n = None"
  shows "run inc src (If h [Define n a] [Define n b]) s =
     (case eval_if (macros s) h of
        Inl e \<Rightarrow> Inl e
      | Inr c \<Rightarrow> Inr (s\<lparr>macros := fmupd n (if c then a else b) (macros s)\<rparr>))"
  using assms by (cases "eval_if (macros s) h") simp_all

lemma run_redefine:
  "run_all inc src [Ifdef n [Undef n] [], If h [Define n a] [Define n b]] s =
     (case eval_if (fmdrop n (macros s)) h of
        Inl e \<Rightarrow> Inl e
      | Inr c \<Rightarrow> Inr (s\<lparr>macros := fmupd n (if c then a else b) (fmdrop n (macros s))\<rparr>))"
proof -
  let ?t = "s\<lparr>macros := fmdrop n (macros s)\<rparr>"
  have "fmlookup (macros ?t) n = None" by simp
  then have "run inc src (If h [Define n a] [Define n b]) ?t =
     (case eval_if (macros ?t) h of
        Inl e \<Rightarrow> Inl e
      | Inr c \<Rightarrow> Inr (?t\<lparr>macros := fmupd n (if c then a else b) (macros ?t)\<rparr>))"
    by (rule run_define_by_if)
  then show ?thesis
    by (simp only: run_all.simps run_undef_if_defined sum.case)
       (simp split: sum.splits)
qed

lemma run_all_append:
  "run_all inc src (ds @ es) s =
     (case run_all inc src ds s of Inl e \<Rightarrow> Inl e | Inr t \<Rightarrow> run_all inc src es t)"
  by (induction ds arbitrary: s) (simp_all split: sum.splits)

lemma run_redefine_then:
  "run_all inc src (Ifdef n [Undef n] [] # If h [Define n a] [Define n b] # rest) s =
     (case eval_if (fmdrop n (macros s)) h of
        Inl e \<Rightarrow> Inl e
      | Inr c \<Rightarrow> run_all inc src rest
                  (s\<lparr>macros := fmupd n (if c then a else b) (fmdrop n (macros s))\<rparr>))"
proof -
  have "run_all inc src ([Ifdef n [Undef n] [], If h [Define n a] [Define n b]] @ rest) s =
     (case eval_if (fmdrop n (macros s)) h of
        Inl e \<Rightarrow> Inl e
      | Inr c \<Rightarrow> run_all inc src rest
                  (s\<lparr>macros := fmupd n (if c then a else b) (fmdrop n (macros s))\<rparr>))"
    unfolding run_all_append run_redefine
    by (cases "eval_if (fmdrop n (macros s)) h") simp_all
  then show ?thesis by simp
qed

lemma run_resolver:
  "run_all inc src resolver s =
     (case eval_if (fmdrop ''GTEST_USE_OWN_TR1_TUPLE'' (macros s)) ''HAVE_TR1_TUPLE'' of
        Inl e \<Rightarrow> Inl e
      | Inr c \<Rightarrow>
          (case eval_if (fmdrop ''GTEST_HAS_PTHREAD'' (after_tuple c (macros s))) ''HAVE_PTHREAD'' of
             Inl e \<Rightarrow> Inl e
           | Inr d \<Rightarrow> Inr (s\<lparr>macros := after_pthread d (after_tuple c (macros s))\<rparr>)))"
proof -
  have flip: "\<And>c. (if c then Number 0 else Number 1) = Number (if c then 0 else 1)"
    "\<And>c. (if c then Number 1 else Number 0) = Number (if c then 1 else 0)"
    by simp_all
  show ?thesis
    unfolding resolver_def run_redefine_then flip
    by (simp add: after_tuple_def after_pthread_def del: run.simps split: sum.splits)
qed

lemma resolve_eq:
  "resolve s =
     (case eval_if (fmdrop ''GTEST_USE_OWN_TR1_TUPLE'' (macros s)) ''HAVE_TR1_TUPLE'' of
        Inl e \<Rightarrow> Inl e
      | Inr c \<Rightarrow>
          (case eval_if (fmdrop ''GTEST_HAS_PTHREAD'' (after_tuple c (macros s))) ''HAVE_PTHREAD'' of
             Inl e \<Rightarrow> Inl e
           | Inr d \<Rightarrow> Inr (s\<lparr>macros := after_pthread d (after_tuple c (macros s))\<rparr>)))"
  unfolding resolve_def by (rule run_resolver)

subsection \<open>Reading an input flag\<close>

lemma not_operator_word [simp]:
  "''HAVE_TR1_TUPLE'' \<notin> set operator_words" "''HAVE_PTHREAD'' \<notin> set operator_words"
  by (simp_all add: operator_words_def)

lemma eval_if_on:
  "flag_on (fmlookup M n) \<Longrightarrow> eval_if M n = Inr True"
  by (auto simp: flag_on_def eval_if_def expand_number split: option.splits macro_body.splits)

lemma eval_if_off:
  assumes "n \<noteq> ''true''" "n \<notin> set operator_words"
    and "case fmlookup M n of
           None \<Rightarrow> True
         | Some (Number k) \<Rightarrow> k mod 2 ^ 64 = 0
         | Some (Name m) \<Rightarrow> m \<noteq> ''true'' \<and> m \<notin> set operator_words \<and> fmlookup M m = None
         | Some b \<Rightarrow> False"
  shows "eval_if M n = Inr False"
proof (cases "fmlookup M n")
  case None
  with assms show ?thesis by (simp add: eval_if_def expand_undefined)
next
  case (Some b)
  show ?thesis
  proof (cases b)
    case (Number k)
    with Some assms show ?thesis by (simp add: eval_if_def expand_number)
  next
    case (Name m)
    with Some assms have "expand M [] n = expand M [n] m"
      by (simp add: expand_name)
    also from Some Name assms have "\<dots> = Name m"
      by (simp add: expand_undefined)
    finally show ?thesis using Some Name assms by (simp add: eval_if_def)
  qed (use Some assms in simp_all)
qed

lemma eval_if_errors:
  "eval_if M n = Inl e \<Longrightarrow> e = Missing_expression \<or> e = Invalid_expression"
  by (cases "expand M [] n") (auto simp: eval_if_def split: if_splits)

lemma expand_absent_zero:
  assumes "h \<notin> set operator_words" and "h \<noteq> ''true''"
  shows "controlling_value (expand (fmupd h (Number 0) M) hide n)
       = controlling_value (expand (fmdrop h M) hide n)"
proof (induction "fmupd h (Number 0) M" hide n rule: expand.induct)
  case (1 hide n)
  show ?case
  proof (cases "n \<in> set hide")
    case True
    then show ?thesis by (simp add: expand_hidden)
  next
    case fresh: False
    show ?thesis
    proof (cases "n = h")
      case True
      with fresh assms show ?thesis
        by (simp add: expand_number expand_undefined)
    next
      case other: False
      then have same: "fmlookup (fmupd h (Number 0) M) n = fmlookup (fmdrop h M) n"
        by simp
      show ?thesis
      proof (cases "fmlookup (fmdrop h M) n")
        case None
        with same show ?thesis by (simp add: expand_undefined)
      next
        case (Some b)
        show ?thesis
        proof (cases b)
          case (Name m)
          with Some same fresh have
            "controlling_value (expand (fmupd h (Number 0) M) (n # hide) m)
             = controlling_value (expand (fmdrop h M) (n # hide) m)"
            by (intro 1) simp_all
          with Some same fresh Name show ?thesis
            by (simp add: expand_name)
        qed (use Some same fresh in \<open>simp_all add: expand_blank expand_number expand_str_lit\<close>)
      qed
    qed
  qed
qed

lemma eval_if_absent_zero:
  assumes "h \<notin> set operator_words" and "h \<noteq> ''true''"
  shows "eval_if (fmupd h (Number 0) M) n = eval_if (fmdrop h M) n"
  unfolding eval_if_def using assms by (rule expand_absent_zero)

lemma resolve_reads:
  assumes "flag_on (fmlookup (macros s) ''HAVE_TR1_TUPLE'')
           \<or> flag_off (macros s) (fmlookup (macros s) ''HAVE_TR1_TUPLE'')"
    and "flag_on (fmlookup (macros s) ''HAVE_PTHREAD'')
           \<or> flag_off (macros s) (fmlookup (macros s) ''HAVE_PTHREAD'')"
  shows "resolve s = Inr (s\<lparr>macros :=
           after_pthread (flag_on (fmlookup (macros s) ''HAVE_PTHREAD''))
             (after_tuple (flag_on (fmlookup (macros s) ''HAVE_TR1_TUPLE'')) (macros s))\<rparr>)"
proof -
  let ?c = "flag_on (fmlookup (macros s) ''HAVE_TR1_TUPLE'')"
  let ?d = "flag_on (fmlookup (macros s) ''HAVE_PTHREAD'')"
  let ?M1 = "fmdrop ''GTEST_USE_OWN_TR1_TUPLE'' (macros s)"
  let ?M2 = "fmdrop ''GTEST_HAS_PTHREAD'' (after_tuple ?c (macros s))"
  have l1: "fmlookup ?M1 ''HAVE_TR1_TUPLE'' = fmlookup (macros s) ''HAVE_TR1_TUPLE''"
    by simp
  have l2: "fmlookup ?M2 ''HAVE_PTHREAD'' = fmlookup (macros s) ''HAVE_PTHREAD''"
    by (simp add: after_tuple_def)
  have e1: "eval_if ?M1 ''HAVE_TR1_TUPLE'' = Inr ?c"
  proof (cases ?c)
    case True
    then show ?thesis by (simp add: eval_if_on l1)
  next
    case False
    with assms(1) have "flag_off (macros s) (fmlookup (macros s) ''HAVE_TR1_TUPLE'')"
      by simp
    then have "eval_if ?M1 ''HAVE_TR1_TUPLE'' = Inr False"
      by (intro eval_if_off)
         (auto simp: l1 flag_off_def plain_identifier_def split: option.splits macro_body.splits)
    with False show ?thesis by simp
  qed
  have e2: "eval_if ?M2 ''HAVE_PTHREAD'' = Inr ?d"
  proof (cases ?d)
    case True
    then have "flag_on (fmlookup ?M2 ''HAVE_PTHREAD'')"
      by (simp only: l2)
    then have "eval_if ?M2 ''HAVE_PTHREAD'' = Inr True"
      by (rule eval_if_on)
    with True show ?thesis by simp
  next
    case False
    with assms(2) have "flag_off (macros s) (fmlookup (macros s) ''HAVE_PTHREAD'')"
      by simp
    then have "eval_if ?M2 ''HAVE_PTHREAD'' = Inr False"
      unfolding flag_off_def plain_identifier_def
      by (intro eval_if_off; simp only: l2)
         (auto simp: after_tuple_def split: option.splits macro_body.splits)
    with False show ?thesis by simp
  qed
  show ?thesis
    by (simp only: resolve_eq e1 e2 sum.case)
qed

lemma flag_input_reads: "flag_input v \<Longrightarrow> flag_on v \<or> flag_off M v"
  by (auto simp: flag_input_def flag_on_def flag_off_def split: option.splits macro_body.splits)

lemma resolve_flags:
  assumes "flag_input (fmlookup (macros s) ''HAVE_TR1_TUPLE'')"
    and "flag_input (fmlookup (macros s) ''HAVE_PTHREAD'')"
  shows "resolve s = Inr (s\<lparr>macros :=
           after_pthread (flag_on (fmlookup (macros s) ''HAVE_PTHREAD''))
             (after_tuple (flag_on (fmlookup (macros s) ''HAVE_TR1_TUPLE'')) (macros s))\<rparr>)"
  using assms by (intro resolve_reads flag_input_reads)

lemma outputs_after:
  "fmlookup (after_pthread d (after_tuple c M)) ''GTEST_USE_OWN_TR1_TUPLE'' = Some (Number (if c then 0 else 1))"
  "fmlookup (after_pthread d (after_tuple c M)) ''GTEST_HAS_PTHREAD'' = Some (Number (if d then 1 else 0))"
  by (simp_all add: after_pthread_def after_tuple_def)

lemma inputs_after:
  "fmlookup (after_pthread d (after_tuple c M)) ''HAVE_TR1_TUPLE'' = fmlookup M ''HAVE_TR1_TUPLE''"
  "fmlookup (after_pthread d (after_tuple c M)) ''HAVE_PTHREAD'' = fmlookup M ''HAVE_PTHREAD''"
  by (simp_all add: after_pthread_def after_tuple_def)

lemma flag_outputs_reads:
  assumes "flag_on (fmlookup (macros s) ''HAVE_TR1_TUPLE'')
           \<or> flag_off (macros s) (fmlookup (macros s) ''HAVE_TR1_TUPLE'')"
    and "flag_on (fmlookup (macros s) ''HAVE_PTHREAD'')
           \<or> flag_off (macros s) (fmlookup (macros s) ''HAVE_PTHREAD'')"
  shows "flag_outputs s =
     Inr (Some (Number (if flag_on (fmlookup (macros s) ''HAVE_TR1_TUPLE'') then 0 else 1)),
          Some (Number (if flag_on (fmlookup (macros s) ''HAVE_PTHREAD'') then 1 else 0)))"
  unfolding flag_outputs_def resolve_reads [OF assms]
  by (simp add: outputs_after)

lemma fmlookup_assign [simp]:
  "fmlookup (assign n v M) k = (if k = n then v else fmlookup M k)"
  by (auto simp: assign_def split: option.splits)

lemma flag_input_simps [simp]:
  "flag_input None" "flag_input (Some (Number k))"
  by (simp_all add: flag_input_def)

lemma flag_on_simps [simp]:
  "\<not> flag_on None" "flag_on (Some (Number k)) = (k mod 2 ^ 64 \<noteq> 0)"
  by (simp_all add: flag_on_def)

lemma flag_outputs_flags:
  assumes "flag_input (fmlookup (macros s) ''HAVE_TR1_TUPLE'')"
    and "flag_input (fmlookup (macros s) ''HAVE_PTHREAD'')"
  shows "flag_outputs s =
     Inr (Some (Number (if flag_on (fmlookup (macros s) ''HAVE_TR1_TUPLE'') then 0 else 1)),
          Some (Number (if flag_on (fmlookup (macros s) ''HAVE_PTHREAD'') then 1 else 0)))"
  using assms by (intro flag_outputs_reads flag_input_reads)

lemma flag_outputs_eq:
  "flag_outputs s =
     (case eval_if (fmdrop ''GTEST_USE_OWN_TR1_TUPLE'' (macros s)) ''HAVE_TR1_TUPLE'' of
        Inl e \<Rightarrow> Inl e
      | Inr c \<Rightarrow>
          (case eval_if (fmdrop ''GTEST_HAS_PTHREAD'' (after_tuple c (macros s))) ''HAVE_PTHREAD'' of
             Inl e \<Rightarrow> Inl e
           | Inr d \<Rightarrow> Inr (Some (Number (if c then 0 else 1)),
                           Some (Number (if d then 1 else 0)))))"
  by (simp add: flag_outputs_def resolve_eq outputs_after split: sum.splits)

lemma eval_if_override_agree:
  assumes over: "\<And>x. fmlookup T x = fmlookup M x \<or> (\<forall>m. fmlookup T x \<noteq> Some (Name m))"
    and agree: "\<And>x. x \<in> set (replacement_path M [] n) \<Longrightarrow> fmlookup T' x = fmlookup T x"
  shows "eval_if T' n = eval_if T n"
proof -
  have "set (replacement_path T [] n) \<subseteq> set (replacement_path M [] n)"
    using over by (rule replacement_path_override)
  then have "expand T' [] n = expand T [] n"
    by (intro expand_agree agree) auto
  then show ?thesis
    by (simp add: eval_if_def)
qed

lemma tuple_table_override:
  "fmlookup (fmdrop ''GTEST_USE_OWN_TR1_TUPLE'' M) x = fmlookup M x
   \<or> (\<forall>m. fmlookup (fmdrop ''GTEST_USE_OWN_TR1_TUPLE'' M) x \<noteq> Some (Name m))"
  by simp

lemma pthread_table_override:
  "fmlookup (fmdrop ''GTEST_HAS_PTHREAD'' (after_tuple c M)) x = fmlookup M x
   \<or> (\<forall>m. fmlookup (fmdrop ''GTEST_HAS_PTHREAD'' (after_tuple c M)) x \<noteq> Some (Name m))"
  by (simp add: after_tuple_def)

lemma representable_nonzero:
  assumes "representable k" and "k \<noteq> 0"
  shows "k mod 2 ^ 64 \<noteq> 0"
proof (cases "0 \<le> k")
  case True
  with assms show ?thesis
    by (simp add: representable_def mod_pos_pos_trivial)
next
  case False
  from assms have lo: "- (2 ^ 63) \<le> k"
    by (simp add: representable_def)
  have "k mod 2 ^ 64 = (k + 2 ^ 64) mod 2 ^ 64"
    by simp
  also from False lo have "\<dots> = k + 2 ^ 64"
    by (intro mod_pos_pos_trivial) simp_all
  finally show ?thesis
    using lo by simp
qed

lemma value_true_on:
  assumes "value_true v"
  shows "flag_on v"
proof -
  from assms obtain k where v: "v = Some (Number k)" and k: "representable k" "k \<noteq> 0"
    by (auto simp: value_true_def split: option.splits macro_body.splits)
  from k have "k mod 2 ^ 64 \<noteq> 0"
    by (rule representable_nonzero)
  with v show ?thesis
    by (simp add: flag_on_def)
qed

lemma value_false_off: "value_false M v \<Longrightarrow> flag_off M v \<and> \<not> flag_on v"
  by (auto simp: value_false_def flag_off_def flag_on_def split: option.splits macro_body.splits)

lemma flag_outputs_absent_zero:
  assumes "h = ''HAVE_TR1_TUPLE'' \<or> h = ''HAVE_PTHREAD''"
  shows "flag_outputs (s\<lparr>macros := fmupd h (Number 0) (macros s)\<rparr>)
       = flag_outputs (s\<lparr>macros := fmdrop h (macros s)\<rparr>)"
proof -
  let ?U = "''GTEST_USE_OWN_TR1_TUPLE''" and ?P = "''GTEST_HAS_PTHREAD''"
  from assms have h: "h \<notin> set operator_words" "h \<noteq> ''true''" "h \<noteq> ?U" "h \<noteq> ?P"
    by auto
  have a1: "fmdrop ?U (fmupd h (Number 0) (macros s)) = fmupd h (Number 0) (fmdrop ?U (macros s))"
    using h by (intro fmap_ext) auto
  have a2: "fmdrop ?U (fmdrop h (macros s)) = fmdrop h (fmdrop ?U (macros s))"
    by (rule fmdrop_comm)
  have b1: "\<And>c. fmdrop ?P (after_tuple c (fmupd h (Number 0) (macros s)))
      = fmupd h (Number 0) (fmdrop ?P (after_tuple c (macros s)))"
    using h by (intro fmap_ext) (auto simp: after_tuple_def)
  have b2: "\<And>c. fmdrop ?P (after_tuple c (fmdrop h (macros s)))
      = fmdrop h (fmdrop ?P (after_tuple c (macros s)))"
    using h by (intro fmap_ext) (auto simp: after_tuple_def)
  have e1: "eval_if (fmdrop ?U (fmupd h (Number 0) (macros s))) ''HAVE_TR1_TUPLE''
      = eval_if (fmdrop ?U (fmdrop h (macros s))) ''HAVE_TR1_TUPLE''"
    by (simp only: a1 a2 eval_if_absent_zero [OF h(1,2)])
  have e2: "\<And>c. eval_if (fmdrop ?P (after_tuple c (fmupd h (Number 0) (macros s)))) ''HAVE_PTHREAD''
      = eval_if (fmdrop ?P (after_tuple c (fmdrop h (macros s)))) ''HAVE_PTHREAD''"
    by (simp only: b1 b2 eval_if_absent_zero [OF h(1,2)])
  show ?thesis
  proof (cases "eval_if (fmdrop ?U (fmdrop h (macros s))) ''HAVE_TR1_TUPLE''")
    case (Inl e)
    then show ?thesis by (simp add: flag_outputs_eq e1)
  next
    case (Inr c)
    then show ?thesis by (simp add: flag_outputs_eq e1 e2)
  qed
qed

subsection \<open>Frame lemmas for directive lists\<close>

lemma macro_frame:
  assumes inc: "\<And>form h a b. inc form h a = Inr b \<Longrightarrow>
                  P (fmlookup (macros a) n) \<Longrightarrow> P (fmlookup (macros b) n)"
  shows "run inc src d s = Inr s' \<Longrightarrow> n \<notin> set (written d) \<Longrightarrow>
           P (fmlookup (macros s) n) \<Longrightarrow> P (fmlookup (macros s') n)"
    and "run_all inc src ds s = Inr s' \<Longrightarrow> n \<notin> set (written_all ds) \<Longrightarrow>
           P (fmlookup (macros s) n) \<Longrightarrow> P (fmlookup (macros s') n)"
  using inc
proof (induction inc src d s and inc src ds s arbitrary: s' and s' rule: run_run_all.induct)
  case (1 inc src s)
  then show ?case by auto
next
  case (2 inc src n' b s)
  then show ?case by (auto split: option.splits if_splits)
next
  case (3 inc src n' s)
  then show ?case by auto
next
  case (4 inc src form h s)
  then show ?case by simp
next
  case (5 inc src n' ds es s)
  then show ?case by (auto split: if_splits)
next
  case (6 inc src n' ds es s)
  then show ?case by (auto split: if_splits)
next
  case (7 inc src n' ds es s)
  then show ?case by (auto split: sum.splits if_splits)
next
  case (8 inc src l s)
  then show ?case by auto
next
  case (9 inc src s)
  then show ?case by auto
next
  case (10 inc src d ds s)
  then show ?case by (auto split: sum.splits)
qed

lemma lines_frame:
  assumes inc: "\<And>form h a b. inc form h a = Inr b \<Longrightarrow> Q (emitted a) \<Longrightarrow> Q (emitted b)"
  shows "run inc src d s = Inr s' \<Longrightarrow> own_lines d = [] \<Longrightarrow>
           Q (emitted s) \<Longrightarrow> Q (emitted s')"
    and "run_all inc src ds s = Inr s' \<Longrightarrow> own_lines_all ds = [] \<Longrightarrow>
           Q (emitted s) \<Longrightarrow> Q (emitted s')"
  using inc
proof (induction inc src d s and inc src ds s arbitrary: s' and s' rule: run_run_all.induct)
  case (2 inc src n' b s)
  then show ?case by (auto split: option.splits if_splits)
next
  case (5 inc src n' ds es s)
  then show ?case by (auto split: if_splits)
next
  case (6 inc src n' ds es s)
  then show ?case by (auto split: if_splits)
next
  case (7 inc src n' ds es s)
  then show ?case by (auto split: sum.splits if_splits)
next
  case (10 inc src d ds s)
  then show ?case by (auto split: sum.splits)
qed simp_all

lemma written_headers:
  "written_all (snd basis_h) = [''SBIA_BASIS_H_'']"
  "written_all (snd test_h) =
     [''SBIA_BASIS_TEST_H_'', ''GTEST_USE_OWN_TR1_TUPLE'', ''GTEST_USE_OWN_TR1_TUPLE'',
      ''GTEST_USE_OWN_TR1_TUPLE'', ''GTEST_HAS_PTHREAD'', ''GTEST_HAS_PTHREAD'',
      ''GTEST_HAS_PTHREAD'']"
  by (simp_all add: basis_h_def test_h_def resolver_def)

lemma own_lines_headers:
  "own_lines_all (snd basis_h) = []" "own_lines_all (snd test_h) = []"
  by (simp_all add: basis_h_def test_h_def resolver_def)

subsection \<open>The include guard of the test header\<close>

lemma run_test_h:
  "run_all inc ''test.h'' (snd test_h) s =
     (if fmlookup (macros s) ''SBIA_BASIS_TEST_H_'' = None
      then run_all inc ''test.h''
             (Include Angled ''sbia/basis/config.h'' # resolver @
               [Include Angled ''sbia/basis/gtest/gtest.h'',
                Include Angled ''sbia/basis/gmock/gmock.h''])
             (s\<lparr>once := insert ''test.h'' (once s),
                 macros := fmupd ''SBIA_BASIS_TEST_H_'' Blank (macros s)\<rparr>)
      else Inr (s\<lparr>once := insert ''test.h'' (once s)\<rparr>))"
  by (cases "fmlookup (macros s) ''SBIA_BASIS_TEST_H_''")
     (simp_all add: test_h_def split: sum.splits)

lemma skip_when_guarded:
  assumes "fmlookup (macros s) ''SBIA_BASIS_TEST_H_'' \<noteq> None"
  shows "include_file inc test_h s = Inr (s\<lparr>once := insert ''test.h'' (once s)\<rparr>)"
proof (cases "''test.h'' \<in> once s")
  case True
  then have "insert ''test.h'' (once s) = once s"
    by (rule insert_absorb)
  with True show ?thesis
    by (simp add: include_file_def test_h_def)
next
  case False
  have "fst test_h = ''test.h''"
    by (simp add: test_h_def)
  with False assms show ?thesis
    by (auto simp: include_file_def run_test_h simp del: run_all.simps)
qed

lemma guard_defined_after:
  assumes keep: "\<And>form h a b. inc form h a = Inr b \<Longrightarrow>
        fmlookup (macros a) ''SBIA_BASIS_TEST_H_'' \<noteq> None \<Longrightarrow>
        fmlookup (macros b) ''SBIA_BASIS_TEST_H_'' \<noteq> None"
    and ran: "run_all inc ''test.h'' (snd test_h) s = Inr s'"
  shows "fmlookup (macros s') ''SBIA_BASIS_TEST_H_'' \<noteq> None"
proof (cases "fmlookup (macros s) ''SBIA_BASIS_TEST_H_''")
  case (Some b)
  with ran show ?thesis
    by (auto simp: run_test_h simp del: run_all.simps)
next
  case None
  let ?t = "s\<lparr>once := insert ''test.h'' (once s),
              macros := fmupd ''SBIA_BASIS_TEST_H_'' Blank (macros s)\<rparr>"
  let ?rest = "Include Angled ''sbia/basis/config.h'' # resolver @
          [Include Angled ''sbia/basis/gtest/gtest.h'',
           Include Angled ''sbia/basis/gmock/gmock.h'']"
  from None ran have rest: "run_all inc ''test.h'' ?rest ?t = Inr s'"
    by (simp add: run_test_h del: run_all.simps)
  have "''SBIA_BASIS_TEST_H_'' \<notin> set (written_all ?rest)"
    by (simp add: resolver_def)
  with keep rest show ?thesis
    by (rule macro_frame(2) [where P = "\<lambda>v. v \<noteq> None" and inc = inc]) simp_all
qed

section \<open>The feature-flag resolver\<close>

text \<open>
  Claim C1. When both input flags are set to a boolean (\<open>1\<close> for true, \<open>0\<close> for
  false), the resolver defines \<^verbatim>\<open>GTEST_USE_OWN_TR1_TUPLE\<close> as the negation of
  \<^verbatim>\<open>HAVE_TR1_TUPLE\<close> and \<^verbatim>\<open>GTEST_HAS_PTHREAD\<close> as
  \<^verbatim>\<open>HAVE_PTHREAD\<close>: true/true gives 0/1, true/false 0/0, false/true 1/1 and
  false/false 1/0.
\<close>

theorem truth_table:
  assumes "fmlookup (macros s) ''HAVE_TR1_TUPLE'' = Some (Number (if t then 1 else 0))"
    and "fmlookup (macros s) ''HAVE_PTHREAD'' = Some (Number (if p then 1 else 0))"
  shows "flag_outputs s =
     Inr (Some (Number (if t then 0 else 1)), Some (Number (if p then 1 else 0)))"
proof -
  from assms have "flag_outputs s =
     Inr (Some (Number (if flag_on (fmlookup (macros s) ''HAVE_TR1_TUPLE'') then 0 else 1)),
          Some (Number (if flag_on (fmlookup (macros s) ''HAVE_PTHREAD'') then 1 else 0)))"
    by (intro flag_outputs_reads) (simp_all add: flag_on_def flag_off_def)
  with assms show ?thesis by (simp add: flag_on_def)
qed

text \<open>The four rows of the table, each on a unit that defines just the two inputs.\<close>

theorem truth_table_witness:
  "fmlookup (macros (unit_with [(''HAVE_TR1_TUPLE'', Number 1), (''HAVE_PTHREAD'', Number 1)]))
      ''HAVE_TR1_TUPLE'' = Some (Number (if True then 1 else 0))
   \<and> fmlookup (macros (unit_with [(''HAVE_TR1_TUPLE'', Number 1), (''HAVE_PTHREAD'', Number 1)]))
      ''HAVE_PTHREAD'' = Some (Number (if True then 1 else 0))
   \<and> flag_outputs (unit_with [(''HAVE_TR1_TUPLE'', Number 1), (''HAVE_PTHREAD'', Number 1)])
     = Inr (Some (Number 0), Some (Number 1))
   \<and> flag_outputs (unit_with [(''HAVE_TR1_TUPLE'', Number 1), (''HAVE_PTHREAD'', Number 0)])
     = Inr (Some (Number 0), Some (Number 0))
   \<and> flag_outputs (unit_with [(''HAVE_TR1_TUPLE'', Number 0), (''HAVE_PTHREAD'', Number 1)])
     = Inr (Some (Number 1), Some (Number 1))
   \<and> flag_outputs (unit_with [(''HAVE_TR1_TUPLE'', Number 0), (''HAVE_PTHREAD'', Number 0)])
     = Inr (Some (Number 1), Some (Number 0))"
  using
    truth_table [of "unit_with [(''HAVE_TR1_TUPLE'', Number 1), (''HAVE_PTHREAD'', Number 1)]" True True]
    truth_table [of "unit_with [(''HAVE_TR1_TUPLE'', Number 1), (''HAVE_PTHREAD'', Number 0)]" True False]
    truth_table [of "unit_with [(''HAVE_TR1_TUPLE'', Number 0), (''HAVE_PTHREAD'', Number 1)]" False True]
    truth_table [of "unit_with [(''HAVE_TR1_TUPLE'', Number 0), (''HAVE_PTHREAD'', Number 0)]" False False]
  by (simp add: unit_with_def)

text \<open>
  Claim C2 as stated, for an input defined with any value, fails: with
  \<^verbatim>\<open>#define HAVE_PTHREAD\<close> (an empty replacement list) the directive
  \<^verbatim>\<open>#if HAVE_PTHREAD\<close> has no expression, and with
  \<^verbatim>\<open>#define HAVE_TR1_TUPLE "yes"\<close> the directive
  \<^verbatim>\<open>#if HAVE_TR1_TUPLE\<close> has a string literal for its expression. Either way
  resolution stops with an error and neither output flag holds 0 or 1.
\<close>

theorem empty_definition_counterexample:
  "flag_outputs (unit_with [(''HAVE_PTHREAD'', Blank)]) = Inl Missing_expression
   \<and> flag_outputs (unit_with [(''HAVE_TR1_TUPLE'', Str_lit ''yes'')]) = Inl Invalid_expression"
  by (simp add: flag_outputs_def resolve_eq eval_if_def expand_undefined expand_blank
        expand_str_lit unit_with_def after_tuple_def)

text \<open>
  Claim C2, amended. Resolution either stops at an ill-formed \<^verbatim>\<open>#if\<close> (the
  input expands to nothing, to a string literal or to an operator word), or it leaves each
  of \<^verbatim>\<open>GTEST_USE_OWN_TR1_TUPLE\<close> and \<^verbatim>\<open>GTEST_HAS_PTHREAD\<close> defined as
  the literal 0 or 1. It does the latter whenever each input is undefined or an integer.
\<close>

theorem outputs_zero_or_one:
  "(flag_outputs s = Inl Missing_expression \<or> flag_outputs s = Inl Invalid_expression
      \<or> (\<exists>u p. flag_outputs s = Inr (Some (Number u), Some (Number p)) \<and> u \<in> {0, 1} \<and> p \<in> {0, 1}))
   \<and> (flag_input (fmlookup (macros s) ''HAVE_TR1_TUPLE'')
        \<and> flag_input (fmlookup (macros s) ''HAVE_PTHREAD'')
      \<longrightarrow> (\<exists>u p. flag_outputs s = Inr (Some (Number u), Some (Number p)) \<and> u \<in> {0, 1} \<and> p \<in> {0, 1}))"
proof (intro conjI impI)
  show "flag_outputs s = Inl Missing_expression \<or> flag_outputs s = Inl Invalid_expression
      \<or> (\<exists>u p. flag_outputs s = Inr (Some (Number u), Some (Number p)) \<and> u \<in> {0, 1} \<and> p \<in> {0, 1})"
  proof (cases "eval_if (fmdrop ''GTEST_USE_OWN_TR1_TUPLE'' (macros s)) ''HAVE_TR1_TUPLE''")
    case (Inl e)
    then have "flag_outputs s = Inl e"
      by (simp add: flag_outputs_def resolve_eq)
    with eval_if_errors [OF Inl] show ?thesis by auto
  next
    case c: (Inr c)
    show ?thesis
    proof (cases "eval_if (fmdrop ''GTEST_HAS_PTHREAD'' (after_tuple c (macros s))) ''HAVE_PTHREAD''")
      case (Inl e)
      with c have "flag_outputs s = Inl e"
        by (simp add: flag_outputs_def resolve_eq)
      with eval_if_errors [OF Inl] show ?thesis by auto
    next
      case (Inr d)
      with c have "flag_outputs s =
          Inr (Some (Number (if c then 0 else 1)), Some (Number (if d then 1 else 0)))"
        by (simp add: flag_outputs_def resolve_eq outputs_after)
      then show ?thesis by simp
    qed
  qed
next
  assume "flag_input (fmlookup (macros s) ''HAVE_TR1_TUPLE'')
        \<and> flag_input (fmlookup (macros s) ''HAVE_PTHREAD'')"
  then have "flag_outputs s =
     Inr (Some (Number (if flag_on (fmlookup (macros s) ''HAVE_TR1_TUPLE'') then 0 else 1)),
          Some (Number (if flag_on (fmlookup (macros s) ''HAVE_PTHREAD'') then 1 else 0)))"
    by (intro flag_outputs_reads flag_input_reads) simp_all
  then show "\<exists>u p. flag_outputs s = Inr (Some (Number u), Some (Number p)) \<and> u \<in> {0, 1} \<and> p \<in> {0, 1}"
    by simp
qed

theorem outputs_zero_or_one_witness:
  "flag_input (fmlookup (macros (unit_with [(''HAVE_TR1_TUPLE'', Number 7)])) ''HAVE_TR1_TUPLE'')
   \<and> flag_input (fmlookup (macros (unit_with [(''HAVE_TR1_TUPLE'', Number 7)])) ''HAVE_PTHREAD'')
   \<and> (\<exists>u p. flag_outputs (unit_with [(''HAVE_TR1_TUPLE'', Number 7)])
              = Inr (Some (Number u), Some (Number p)) \<and> u \<in> {0, 1} \<and> p \<in> {0, 1})"
  using outputs_zero_or_one [of "unit_with [(''HAVE_TR1_TUPLE'', Number 7)]"]
  by (simp add: unit_with_def flag_input_def)

text \<open>
  Claim C3. Leaving an input flag undefined gives the same result as defining it as
  \<open>0\<close>, in every state. Without \<^verbatim>\<open>HAVE_TR1_TUPLE\<close> the resolver sets
  \<^verbatim>\<open>GTEST_USE_OWN_TR1_TUPLE\<close> to 1, without \<^verbatim>\<open>HAVE_PTHREAD\<close> it sets
  \<^verbatim>\<open>GTEST_HAS_PTHREAD\<close> to 0, and resolution does not fail when the other input
  is undefined or an integer.
\<close>

theorem undefined_is_false:
  "flag_outputs (s\<lparr>macros := fmdrop ''HAVE_TR1_TUPLE'' (macros s)\<rparr>)
     = flag_outputs (s\<lparr>macros := fmupd ''HAVE_TR1_TUPLE'' (Number 0) (macros s)\<rparr>)
   \<and> flag_outputs (s\<lparr>macros := fmdrop ''HAVE_PTHREAD'' (macros s)\<rparr>)
     = flag_outputs (s\<lparr>macros := fmupd ''HAVE_PTHREAD'' (Number 0) (macros s)\<rparr>)
   \<and> (flag_input (fmlookup (macros s) ''HAVE_PTHREAD'') \<longrightarrow>
      flag_outputs (s\<lparr>macros := fmdrop ''HAVE_TR1_TUPLE'' (macros s)\<rparr>)
        = Inr (Some (Number 1),
               Some (Number (if flag_on (fmlookup (macros s) ''HAVE_PTHREAD'') then 1 else 0))))
   \<and> (flag_input (fmlookup (macros s) ''HAVE_TR1_TUPLE'') \<longrightarrow>
      flag_outputs (s\<lparr>macros := fmdrop ''HAVE_PTHREAD'' (macros s)\<rparr>)
        = Inr (Some (Number (if flag_on (fmlookup (macros s) ''HAVE_TR1_TUPLE'') then 0 else 1)),
               Some (Number 0)))"
proof (intro conjI impI)
  show "flag_outputs (s\<lparr>macros := fmdrop ''HAVE_TR1_TUPLE'' (macros s)\<rparr>)
     = flag_outputs (s\<lparr>macros := fmupd ''HAVE_TR1_TUPLE'' (Number 0) (macros s)\<rparr>)"
    by (rule flag_outputs_absent_zero [symmetric]) simp
  show "flag_outputs (s\<lparr>macros := fmdrop ''HAVE_PTHREAD'' (macros s)\<rparr>)
     = flag_outputs (s\<lparr>macros := fmupd ''HAVE_PTHREAD'' (Number 0) (macros s)\<rparr>)"
    by (rule flag_outputs_absent_zero [symmetric]) simp
next
  assume "flag_input (fmlookup (macros s) ''HAVE_PTHREAD'')"
  then show "flag_outputs (s\<lparr>macros := fmdrop ''HAVE_TR1_TUPLE'' (macros s)\<rparr>)
        = Inr (Some (Number 1),
               Some (Number (if flag_on (fmlookup (macros s) ''HAVE_PTHREAD'') then 1 else 0)))"
    by (subst flag_outputs_flags) simp_all
next
  assume "flag_input (fmlookup (macros s) ''HAVE_TR1_TUPLE'')"
  then show "flag_outputs (s\<lparr>macros := fmdrop ''HAVE_PTHREAD'' (macros s)\<rparr>)
        = Inr (Some (Number (if flag_on (fmlookup (macros s) ''HAVE_TR1_TUPLE'') then 0 else 1)),
               Some (Number 0))"
    by (subst flag_outputs_flags) simp_all
qed

theorem undefined_is_false_witness:
  "flag_input (fmlookup (macros (unit_with [])) ''HAVE_PTHREAD'')
   \<and> flag_input (fmlookup (macros (unit_with [])) ''HAVE_TR1_TUPLE'')
   \<and> flag_outputs (unit_with []) = Inr (Some (Number 1), Some (Number 0))
   \<and> flag_outputs (unit_with [(''HAVE_TR1_TUPLE'', Number 0)])
       = Inr (Some (Number 1), Some (Number 0))
   \<and> flag_outputs (unit_with [(''HAVE_PTHREAD'', Number 0)])
       = Inr (Some (Number 1), Some (Number 0))"
proof -
  let ?u = "unit_with []"
  have undef: "?u\<lparr>macros := fmdrop ''HAVE_TR1_TUPLE'' (macros ?u)\<rparr> = ?u"
    "?u\<lparr>macros := fmdrop ''HAVE_PTHREAD'' (macros ?u)\<rparr> = ?u"
    by (simp_all add: unit_with_def)
  have zero: "?u\<lparr>macros := fmupd ''HAVE_TR1_TUPLE'' (Number 0) (macros ?u)\<rparr>
      = unit_with [(''HAVE_TR1_TUPLE'', Number 0)]"
    "?u\<lparr>macros := fmupd ''HAVE_PTHREAD'' (Number 0) (macros ?u)\<rparr>
      = unit_with [(''HAVE_PTHREAD'', Number 0)]"
    by (simp_all add: unit_with_def)
  have flags: "flag_input (fmlookup (macros ?u) ''HAVE_PTHREAD'')"
    "flag_input (fmlookup (macros ?u) ''HAVE_TR1_TUPLE'')"
    by (simp_all add: unit_with_def)
  have plain: "flag_on (fmlookup (macros ?u) ''HAVE_PTHREAD'') = False"
    by (simp add: unit_with_def)
  from undefined_is_false [of ?u] flags
  have same: "flag_outputs ?u = flag_outputs (unit_with [(''HAVE_TR1_TUPLE'', Number 0)])"
    "flag_outputs ?u = flag_outputs (unit_with [(''HAVE_PTHREAD'', Number 0)])"
    and "flag_outputs ?u = Inr (Some (Number 1), Some (Number (if False then 1 else 0)))"
    unfolding undef zero plain by blast+
  then have val: "flag_outputs ?u = Inr (Some (Number 1), Some (Number 0))"
    by simp
  from same [symmetric] val flags show ?thesis
    by (simp only: simp_thms)
qed

text \<open>
  Claim C4. Whatever the two output macros were before (\<open>v\<close> and \<open>w\<close>, defined
  or not), after resolution they hold the values of the truth table, in which \<open>v\<close>
  and \<open>w\<close> do not occur. The inputs are undefined or integers.
\<close>

theorem resolver_overrides:
  assumes "flag_input (fmlookup (macros s) ''HAVE_TR1_TUPLE'')"
    and "flag_input (fmlookup (macros s) ''HAVE_PTHREAD'')"
  shows "flag_outputs (s\<lparr>macros := assign ''GTEST_USE_OWN_TR1_TUPLE'' v
                                    (assign ''GTEST_HAS_PTHREAD'' w (macros s))\<rparr>) =
     Inr (Some (Number (if flag_on (fmlookup (macros s) ''HAVE_TR1_TUPLE'') then 0 else 1)),
          Some (Number (if flag_on (fmlookup (macros s) ''HAVE_PTHREAD'') then 1 else 0)))"
  using assms by (subst flag_outputs_flags) simp_all

theorem resolver_overrides_witness:
  "flag_input (fmlookup (macros (unit_with [(''HAVE_PTHREAD'', Number 1)])) ''HAVE_TR1_TUPLE'')
   \<and> flag_input (fmlookup (macros (unit_with [(''HAVE_PTHREAD'', Number 1)])) ''HAVE_PTHREAD'')
   \<and> flag_outputs (unit_with [(''GTEST_USE_OWN_TR1_TUPLE'', Number 0),
                               (''HAVE_PTHREAD'', Number 1)])
       = Inr (Some (Number 1), Some (Number 1))"
  using resolver_overrides [of "unit_with [(''HAVE_PTHREAD'', Number 1)]" "Some (Number 0)" None]
  by (simp add: unit_with_def assign_def fmdrop_fmupd)

text \<open>
  Claim C5 as stated, for every input state, fails: with
  \<^verbatim>\<open>#define HAVE_TR1_TUPLE GTEST_HAS_PTHREAD\<close> and \<^verbatim>\<open>#define HAVE_PTHREAD 1\<close>
  the first run reads \<^verbatim>\<open>HAVE_TR1_TUPLE\<close> as an undefined identifier and leaves the
  outputs 1 and 1; the second run reads it through the \<^verbatim>\<open>GTEST_HAS_PTHREAD\<close> that
  the first run defined and leaves 0 and 1.
\<close>

theorem alias_second_run_counterexample:
  "flag_outputs (unit_with [(''HAVE_TR1_TUPLE'', Name ''GTEST_HAS_PTHREAD''),
                            (''HAVE_PTHREAD'', Number 1)])
     = Inr (Some (Number 1), Some (Number 1))
   \<and> flag_outputs_twice (unit_with [(''HAVE_TR1_TUPLE'', Name ''GTEST_HAS_PTHREAD''),
                                    (''HAVE_PTHREAD'', Number 1)])
     = Inr (Some (Number 0), Some (Number 1))"
  by (simp add: flag_outputs_twice_def flag_outputs_def resolve_eq eval_if_def
        expand_undefined expand_name expand_number unit_with_def
        after_tuple_def after_pthread_def operator_words_def)

text \<open>
  Claim C5, amended. Running the resolver on its own result gives that result again, an
  error included, whenever the replacement of \<^verbatim>\<open>HAVE_TR1_TUPLE\<close> does not pass
  through \<^verbatim>\<open>GTEST_HAS_PTHREAD\<close>. With inputs that are undefined or integers both
  runs succeed and the second returns the state the first produced.
\<close>

theorem resolver_idempotent:
  "(''GTEST_HAS_PTHREAD'' \<notin> set (replacement_path (macros s) [] ''HAVE_TR1_TUPLE'') \<longrightarrow>
      resolve_twice s = resolve s)
   \<and> (flag_input (fmlookup (macros s) ''HAVE_TR1_TUPLE'')
      \<and> flag_input (fmlookup (macros s) ''HAVE_PTHREAD'') \<longrightarrow>
      (\<exists>s'. resolve s = Inr s' \<and> resolve s' = Inr s'))"
proof (intro conjI impI)
  assume away: "''GTEST_HAS_PTHREAD'' \<notin> set (replacement_path (macros s) [] ''HAVE_TR1_TUPLE'')"
  show "resolve_twice s = resolve s"
  proof (cases "resolve s")
    case (Inl e)
    then show ?thesis by (simp add: resolve_twice_def)
  next
    case (Inr s')
    then obtain c d where
      c: "eval_if (fmdrop ''GTEST_USE_OWN_TR1_TUPLE'' (macros s)) ''HAVE_TR1_TUPLE'' = Inr c"
      and d: "eval_if (fmdrop ''GTEST_HAS_PTHREAD'' (after_tuple c (macros s))) ''HAVE_PTHREAD''
                = Inr d"
      and s': "s' = s\<lparr>macros := after_pthread d (after_tuple c (macros s))\<rparr>"
      by (auto simp: resolve_eq split: sum.splits)
    have "eval_if (fmdrop ''GTEST_USE_OWN_TR1_TUPLE'' (macros s')) ''HAVE_TR1_TUPLE''
        = eval_if (fmdrop ''GTEST_USE_OWN_TR1_TUPLE'' (macros s)) ''HAVE_TR1_TUPLE''"
    proof (rule eval_if_override_agree [where M = "macros s"])
      fix x
      show "fmlookup (fmdrop ''GTEST_USE_OWN_TR1_TUPLE'' (macros s)) x = fmlookup (macros s) x
          \<or> (\<forall>m. fmlookup (fmdrop ''GTEST_USE_OWN_TR1_TUPLE'' (macros s)) x \<noteq> Some (Name m))"
        by (rule tuple_table_override)
      assume "x \<in> set (replacement_path (macros s) [] ''HAVE_TR1_TUPLE'')"
      with away have "x \<noteq> ''GTEST_HAS_PTHREAD''"
        by auto
      then show "fmlookup (fmdrop ''GTEST_USE_OWN_TR1_TUPLE'' (macros s')) x
          = fmlookup (fmdrop ''GTEST_USE_OWN_TR1_TUPLE'' (macros s)) x"
        by (simp add: s' after_pthread_def after_tuple_def)
    qed
    with c have c': "eval_if (fmdrop ''GTEST_USE_OWN_TR1_TUPLE'' (macros s')) ''HAVE_TR1_TUPLE''
        = Inr c"
      by simp
    have "fmdrop ''GTEST_HAS_PTHREAD'' (after_tuple c (macros s'))
        = fmdrop ''GTEST_HAS_PTHREAD'' (after_tuple c (macros s))"
      unfolding s' by (rule fmap_ext) (simp add: after_pthread_def after_tuple_def)
    with d have d': "eval_if (fmdrop ''GTEST_HAS_PTHREAD'' (after_tuple c (macros s')))
        ''HAVE_PTHREAD'' = Inr d"
      by simp
    have again: "after_pthread d (after_tuple c (macros s')) = macros s'"
      unfolding s' by (rule fmap_ext) (simp add: after_pthread_def after_tuple_def)
    have "resolve s' = Inr (s'\<lparr>macros := after_pthread d (after_tuple c (macros s'))\<rparr>)"
      by (simp only: resolve_eq [of s'] c' d' sum.case)
    also have "\<dots> = Inr s'"
      by (simp add: again)
    finally show ?thesis using Inr by (simp add: resolve_twice_def)
  qed
next
  assume fl: "flag_input (fmlookup (macros s) ''HAVE_TR1_TUPLE'')
      \<and> flag_input (fmlookup (macros s) ''HAVE_PTHREAD'')"
  let ?c = "flag_on (fmlookup (macros s) ''HAVE_TR1_TUPLE'')"
  let ?d = "flag_on (fmlookup (macros s) ''HAVE_PTHREAD'')"
  let ?s' = "s\<lparr>macros := after_pthread ?d (after_tuple ?c (macros s))\<rparr>"
  have first: "resolve s = Inr ?s'"
    using fl by (intro resolve_flags) simp_all
  have again: "after_pthread ?d (after_tuple ?c (macros ?s')) = macros ?s'"
    by (rule fmap_ext) (simp add: after_pthread_def after_tuple_def)
  have "resolve ?s' = Inr (?s'\<lparr>macros :=
           after_pthread (flag_on (fmlookup (macros ?s') ''HAVE_PTHREAD''))
             (after_tuple (flag_on (fmlookup (macros ?s') ''HAVE_TR1_TUPLE'')) (macros ?s'))\<rparr>)"
    using fl by (intro resolve_flags) (simp_all add: inputs_after)
  also have "\<dots> = Inr ?s'"
    using again by (simp add: inputs_after)
  finally show "\<exists>s'. resolve s = Inr s' \<and> resolve s' = Inr s'"
    using first by blast
qed

text \<open>
  On a unit where \<^verbatim>\<open>HAVE_TR1_TUPLE\<close> is the identifier \<^verbatim>\<open>ON\<close>, and on one
  where the inputs are an integer and undefined.
\<close>

theorem resolver_idempotent_witness:
  "replacement_path (macros (unit_with [(''HAVE_TR1_TUPLE'', Name ''ON''),
       (''HAVE_PTHREAD'', Number 1)])) [] ''HAVE_TR1_TUPLE'' = [''HAVE_TR1_TUPLE'', ''ON'']
   \<and> resolve_twice (unit_with [(''HAVE_TR1_TUPLE'', Name ''ON''), (''HAVE_PTHREAD'', Number 1)])
       = resolve (unit_with [(''HAVE_TR1_TUPLE'', Name ''ON''), (''HAVE_PTHREAD'', Number 1)])
   \<and> flag_input (fmlookup (macros (unit_with [(''HAVE_PTHREAD'', Number 1)])) ''HAVE_TR1_TUPLE'')
   \<and> flag_input (fmlookup (macros (unit_with [(''HAVE_PTHREAD'', Number 1)])) ''HAVE_PTHREAD'')
   \<and> (\<exists>s'. resolve (unit_with [(''HAVE_PTHREAD'', Number 1)]) = Inr s' \<and> resolve s' = Inr s')"
proof -
  have path: "replacement_path (macros (unit_with [(''HAVE_TR1_TUPLE'', Name ''ON''),
       (''HAVE_PTHREAD'', Number 1)])) [] ''HAVE_TR1_TUPLE'' = [''HAVE_TR1_TUPLE'', ''ON'']"
    by (simp add: unit_with_def replacement_path_name replacement_path_undefined)
  from resolver_idempotent
         [of "unit_with [(''HAVE_TR1_TUPLE'', Name ''ON''), (''HAVE_PTHREAD'', Number 1)]"]
       resolver_idempotent [of "unit_with [(''HAVE_PTHREAD'', Number 1)]"]
       path
  show ?thesis
    by (simp add: unit_with_def)
qed

text \<open>
  Claim C6. For every combination of the two inputs, each true, false or undefined, the
  resolver returns a state, never an error, and both output macros are defined in it.
\<close>

theorem resolver_total:
  "\<exists>s'. resolve (s\<lparr>macros := assign ''HAVE_TR1_TUPLE'' (input_flag t)
                                (assign ''HAVE_PTHREAD'' (input_flag p) (macros s))\<rparr>) = Inr s'
        \<and> fmlookup (macros s') ''GTEST_USE_OWN_TR1_TUPLE'' \<noteq> None
        \<and> fmlookup (macros s') ''GTEST_HAS_PTHREAD'' \<noteq> None"
proof -
  let ?s = "s\<lparr>macros := assign ''HAVE_TR1_TUPLE'' (input_flag t)
                                (assign ''HAVE_PTHREAD'' (input_flag p) (macros s))\<rparr>"
  have "flag_input (input_flag t)" "flag_input (input_flag p)"
    by (simp_all add: input_flag_def split: option.splits)
  then have "resolve ?s = Inr (?s\<lparr>macros :=
           after_pthread (flag_on (fmlookup (macros ?s) ''HAVE_PTHREAD''))
             (after_tuple (flag_on (fmlookup (macros ?s) ''HAVE_TR1_TUPLE'')) (macros ?s))\<rparr>)"
    by (intro resolve_flags) simp_all
  then show ?thesis
    by (simp add: outputs_after)
qed

theorem resolver_total_witness:
  "\<exists>s'. resolve (unit_with []) = Inr s'
        \<and> fmlookup (macros s') ''GTEST_USE_OWN_TR1_TUPLE'' \<noteq> None
        \<and> fmlookup (macros s') ''GTEST_HAS_PTHREAD'' \<noteq> None"
  using resolver_total [where s = "unit_with []" and t = None and p = None]
  by (simp add: unit_with_def input_flag_def assign_def)

text \<open>
  Claim C7 as stated, regardless of any other macro, fails: with
  \<^verbatim>\<open>#define HAVE_PTHREAD ON\<close> two units have the same two input flags, yet the one
  where \<^verbatim>\<open>ON\<close> is undefined gets \<^verbatim>\<open>GTEST_HAS_PTHREAD\<close> 0 and the one with
  \<^verbatim>\<open>#define ON 1\<close> gets 1.
\<close>

theorem other_macro_counterexample:
  "fmlookup (macros (unit_with [(''HAVE_PTHREAD'', Name ''ON''), (''ON'', Number 1)]))
      ''HAVE_TR1_TUPLE''
     = fmlookup (macros (unit_with [(''HAVE_PTHREAD'', Name ''ON'')])) ''HAVE_TR1_TUPLE''
   \<and> fmlookup (macros (unit_with [(''HAVE_PTHREAD'', Name ''ON''), (''ON'', Number 1)]))
      ''HAVE_PTHREAD''
     = fmlookup (macros (unit_with [(''HAVE_PTHREAD'', Name ''ON'')])) ''HAVE_PTHREAD''
   \<and> flag_outputs (unit_with [(''HAVE_PTHREAD'', Name ''ON'')])
     = Inr (Some (Number 1), Some (Number 0))
   \<and> flag_outputs (unit_with [(''HAVE_PTHREAD'', Name ''ON''), (''ON'', Number 1)])
     = Inr (Some (Number 1), Some (Number 1))"
  by (simp add: flag_outputs_def resolve_eq eval_if_def expand_undefined expand_name
        expand_number unit_with_def after_tuple_def after_pthread_def operator_words_def)

text \<open>
  Claim C7, amended. Two units that agree on the two input flags and on every macro that
  the replacement of these two passes through get the same result, whatever else differs
  between them: other macros, files already read, lines already emitted. (The path of a
  flag starts with the flag itself; for a flag that is not an identifier it ends there.)
\<close>

theorem resolver_deterministic:
  assumes "\<forall>x \<in> set (replacement_path (macros s1) [] ''HAVE_TR1_TUPLE'')
               \<union> set (replacement_path (macros s1) [] ''HAVE_PTHREAD'').
             fmlookup (macros s2) x = fmlookup (macros s1) x"
  shows "flag_outputs s2 = flag_outputs s1"
proof -
  have t: "eval_if (fmdrop ''GTEST_USE_OWN_TR1_TUPLE'' (macros s2)) ''HAVE_TR1_TUPLE''
      = eval_if (fmdrop ''GTEST_USE_OWN_TR1_TUPLE'' (macros s1)) ''HAVE_TR1_TUPLE''"
  proof (rule eval_if_override_agree [where M = "macros s1"])
    fix x
    show "fmlookup (fmdrop ''GTEST_USE_OWN_TR1_TUPLE'' (macros s1)) x = fmlookup (macros s1) x
        \<or> (\<forall>m. fmlookup (fmdrop ''GTEST_USE_OWN_TR1_TUPLE'' (macros s1)) x \<noteq> Some (Name m))"
      by (rule tuple_table_override)
    assume "x \<in> set (replacement_path (macros s1) [] ''HAVE_TR1_TUPLE'')"
    with assms have "fmlookup (macros s2) x = fmlookup (macros s1) x"
      by blast
    then show "fmlookup (fmdrop ''GTEST_USE_OWN_TR1_TUPLE'' (macros s2)) x
        = fmlookup (fmdrop ''GTEST_USE_OWN_TR1_TUPLE'' (macros s1)) x"
      by simp
  qed
  have p: "eval_if (fmdrop ''GTEST_HAS_PTHREAD'' (after_tuple c (macros s2))) ''HAVE_PTHREAD''
      = eval_if (fmdrop ''GTEST_HAS_PTHREAD'' (after_tuple c (macros s1))) ''HAVE_PTHREAD''" for c
  proof (rule eval_if_override_agree [where M = "macros s1"])
    fix x
    show "fmlookup (fmdrop ''GTEST_HAS_PTHREAD'' (after_tuple c (macros s1))) x
          = fmlookup (macros s1) x
        \<or> (\<forall>m. fmlookup (fmdrop ''GTEST_HAS_PTHREAD'' (after_tuple c (macros s1))) x
                \<noteq> Some (Name m))"
      by (rule pthread_table_override)
    assume "x \<in> set (replacement_path (macros s1) [] ''HAVE_PTHREAD'')"
    with assms have "fmlookup (macros s2) x = fmlookup (macros s1) x"
      by blast
    then show "fmlookup (fmdrop ''GTEST_HAS_PTHREAD'' (after_tuple c (macros s2))) x
        = fmlookup (fmdrop ''GTEST_HAS_PTHREAD'' (after_tuple c (macros s1))) x"
      by (simp add: after_tuple_def)
  qed
  show ?thesis
    by (simp only: flag_outputs_eq t p)
qed

text \<open>
  Two units with \<^verbatim>\<open>#define HAVE_PTHREAD ON\<close> and \<^verbatim>\<open>#define ON 1\<close>; the second
  also has an unrelated macro and an earlier value of an output.
\<close>

theorem resolver_deterministic_witness:
  "replacement_path (macros (unit_with [(''HAVE_PTHREAD'', Name ''ON''), (''ON'', Number 1)]))
      [] ''HAVE_TR1_TUPLE'' = [''HAVE_TR1_TUPLE'']
   \<and> replacement_path (macros (unit_with [(''HAVE_PTHREAD'', Name ''ON''), (''ON'', Number 1)]))
      [] ''HAVE_PTHREAD'' = [''HAVE_PTHREAD'', ''ON'']
   \<and> flag_outputs (unit_with [(''HAVE_PTHREAD'', Name ''ON''), (''ON'', Number 1),
                  (''NDEBUG'', Blank), (''GTEST_HAS_PTHREAD'', Number 0)])
       = flag_outputs (unit_with [(''HAVE_PTHREAD'', Name ''ON''), (''ON'', Number 1)])"
proof -
  let ?a = "unit_with [(''HAVE_PTHREAD'', Name ''ON''), (''ON'', Number 1)]"
  let ?b = "unit_with [(''HAVE_PTHREAD'', Name ''ON''), (''ON'', Number 1),
                  (''NDEBUG'', Blank), (''GTEST_HAS_PTHREAD'', Number 0)]"
  have t: "replacement_path (macros ?a) [] ''HAVE_TR1_TUPLE'' = [''HAVE_TR1_TUPLE'']"
    by (simp add: unit_with_def replacement_path_undefined)
  have p: "replacement_path (macros ?a) [] ''HAVE_PTHREAD'' = [''HAVE_PTHREAD'', ''ON'']"
    by (simp add: unit_with_def replacement_path_name replacement_path_number)
  have "\<forall>x \<in> set (replacement_path (macros ?a) [] ''HAVE_TR1_TUPLE'')
               \<union> set (replacement_path (macros ?a) [] ''HAVE_PTHREAD'').
             fmlookup (macros ?b) x = fmlookup (macros ?a) x"
    unfolding t p by (simp add: unit_with_def)
  then have "flag_outputs ?b = flag_outputs ?a"
    by (rule resolver_deterministic)
  with t p show ?thesis
    by (simp only: simp_thms)
qed

text \<open>
  Claim C10 as stated, that every non-numeric token behaves as false, fails: the header is
  C++, where the identifier \<^verbatim>\<open>true\<close> keeps its meaning in a controlling
  expression. With \<^verbatim>\<open>#define HAVE_PTHREAD true\<close> the resolver sets
  \<^verbatim>\<open>GTEST_HAS_PTHREAD\<close> to 1.
\<close>

theorem true_keyword_counterexample:
  "flag_outputs (unit_with [(''HAVE_PTHREAD'', Name ''true'')])
     = Inr (Some (Number 1), Some (Number 1))"
  by (simp add: flag_outputs_def resolve_eq eval_if_def expand_undefined expand_name
        unit_with_def after_tuple_def after_pthread_def operator_words_def)

text \<open>
  Claim C10, amended. An input that is a non-zero integer within the range of the
  preprocessor's 64-bit arithmetic (from \<open>- 2 ^ 63\<close> up to \<open>2 ^ 64 - 1\<close>) reads as
  true: \<^verbatim>\<open>GTEST_USE_OWN_TR1_TUPLE\<close> becomes 0, \<^verbatim>\<open>GTEST_HAS_PTHREAD\<close> becomes
  1. An input that is undefined, zero, or an identifier which is not \<^verbatim>\<open>true\<close>,
  not an operator word and not the name of a macro reads as false.
\<close>

theorem input_values:
  assumes "value_true (fmlookup (macros s) ''HAVE_TR1_TUPLE'')
           \<or> value_false (macros s) (fmlookup (macros s) ''HAVE_TR1_TUPLE'')"
    and "value_true (fmlookup (macros s) ''HAVE_PTHREAD'')
           \<or> value_false (macros s) (fmlookup (macros s) ''HAVE_PTHREAD'')"
  shows "flag_outputs s =
     Inr (Some (Number (if value_true (fmlookup (macros s) ''HAVE_TR1_TUPLE'') then 0 else 1)),
          Some (Number (if value_true (fmlookup (macros s) ''HAVE_PTHREAD'') then 1 else 0)))"
proof -
  let ?t = "fmlookup (macros s) ''HAVE_TR1_TUPLE''" and ?p = "fmlookup (macros s) ''HAVE_PTHREAD''"
  from assms(1) have t: "flag_on ?t \<or> flag_off (macros s) ?t" "flag_on ?t = value_true ?t"
    by (auto dest: value_true_on value_false_off)
  from assms(2) have p: "flag_on ?p \<or> flag_off (macros s) ?p" "flag_on ?p = value_true ?p"
    by (auto dest: value_true_on value_false_off)
  from t(1) p(1) have "flag_outputs s =
     Inr (Some (Number (if flag_on ?t then 0 else 1)), Some (Number (if flag_on ?p then 1 else 0)))"
    by (rule flag_outputs_reads)
  then show ?thesis
    by (simp only: t(2) p(2))
qed

theorem input_values_witness:
  "value_true (fmlookup (macros (unit_with [(''HAVE_TR1_TUPLE'', Number (- 3)),
         (''HAVE_PTHREAD'', Name ''ON'')])) ''HAVE_TR1_TUPLE'')
   \<and> value_false (macros (unit_with [(''HAVE_TR1_TUPLE'', Number (- 3)),
         (''HAVE_PTHREAD'', Name ''ON'')]))
        (fmlookup (macros (unit_with [(''HAVE_TR1_TUPLE'', Number (- 3)),
         (''HAVE_PTHREAD'', Name ''ON'')])) ''HAVE_PTHREAD'')
   \<and> flag_outputs (unit_with [(''HAVE_TR1_TUPLE'', Number (- 3)), (''HAVE_PTHREAD'', Name ''ON'')])
       = Inr (Some (Number 0), Some (Number 0))"
  using input_values [of "unit_with [(''HAVE_TR1_TUPLE'', Number (- 3)), (''HAVE_PTHREAD'', Name ''ON'')]"]
  by (simp add: unit_with_def value_true_def value_false_def representable_def
        plain_identifier_def operator_words_def)

section \<open>The umbrella headers as a whole\<close>

text \<open>
  Claim C8. Reading \<^verbatim>\<open>basis.h\<close> or \<^verbatim>\<open>test.h\<close> adds nothing of its own
  besides the include guard and, for \<^verbatim>\<open>test.h\<close>, the two resolved flags: any
  other macro \<open>n\<close> that the included headers leave alone is the same afterwards, and
  every property \<open>Q\<close> of the emitted program text that the included headers maintain
  still holds.
\<close>

theorem umbrella_headers_add_nothing:
  assumes hdr: "hdr = basis_h \<and> n \<noteq> ''SBIA_BASIS_H_''
      \<or> hdr = test_h \<and> n \<noteq> ''SBIA_BASIS_TEST_H_''
          \<and> n \<noteq> ''GTEST_USE_OWN_TR1_TUPLE'' \<and> n \<noteq> ''GTEST_HAS_PTHREAD''"
    and macro: "\<And>form h a b. inc form h a = Inr b \<Longrightarrow>
                  fmlookup (macros b) n = fmlookup (macros a) n"
    and lines: "\<And>form h a b. inc form h a = Inr b \<Longrightarrow> Q (emitted a) \<Longrightarrow> Q (emitted b)"
    and incl: "include_file inc hdr s = Inr s'"
  shows "fmlookup (macros s') n = fmlookup (macros s) n \<and> (Q (emitted s) \<longrightarrow> Q (emitted s'))"
proof (cases "fst hdr \<in> once s")
  case True
  with incl show ?thesis by (simp add: include_file_def)
next
  case False
  with incl have ran: "run_all inc (fst hdr) (snd hdr) s = Inr s'"
    by (simp add: include_file_def)
  from hdr have untouched: "n \<notin> set (written_all (snd hdr))"
    by (auto simp: written_headers)
  from hdr have quiet: "own_lines_all (snd hdr) = []"
    by (auto simp: own_lines_headers)
  have "fmlookup (macros s') n = fmlookup (macros s) n"
  proof (rule macro_frame(2) [where P = "\<lambda>v. v = fmlookup (macros s) n" and inc = inc and n = n])
    show "\<And>form h a b. inc form h a = Inr b \<Longrightarrow>
        fmlookup (macros a) n = fmlookup (macros s) n \<Longrightarrow>
        fmlookup (macros b) n = fmlookup (macros s) n"
      by (simp add: macro)
    show "run_all inc (fst hdr) (snd hdr) s = Inr s'"
      by (rule ran)
    show "n \<notin> set (written_all (snd hdr))"
      by (rule untouched)
    show "fmlookup (macros s) n = fmlookup (macros s) n" ..
  qed
  moreover have "Q (emitted s) \<longrightarrow> Q (emitted s')"
  proof
    assume "Q (emitted s)"
    with lines ran quiet show "Q (emitted s')"
      by (rule lines_frame(2) [where Q = Q and inc = inc])
  qed
  ultimately show ?thesis ..
qed

theorem umbrella_headers_add_nothing_witness:
  "include_file no_includes test_h (unit_with [(''NDEBUG'', Blank)])
      = Inr \<lparr>macros = fmap_of_list [(''GTEST_HAS_PTHREAD'', Number 0),
                (''GTEST_USE_OWN_TR1_TUPLE'', Number 1), (''SBIA_BASIS_TEST_H_'', Blank),
                (''NDEBUG'', Blank)],
             once = {''test.h''}, emitted = []\<rparr>
   \<and> fmlookup (fmap_of_list [(''GTEST_HAS_PTHREAD'', Number 0),
                (''GTEST_USE_OWN_TR1_TUPLE'', Number 1), (''SBIA_BASIS_TEST_H_'', Blank),
                (''NDEBUG'', Blank)]) ''NDEBUG''
      = fmlookup (macros (unit_with [(''NDEBUG'', Blank)])) ''NDEBUG''"
proof -
  have ran: "include_file no_includes test_h (unit_with [(''NDEBUG'', Blank)])
      = Inr \<lparr>macros = fmap_of_list [(''GTEST_HAS_PTHREAD'', Number 0),
                (''GTEST_USE_OWN_TR1_TUPLE'', Number 1), (''SBIA_BASIS_TEST_H_'', Blank),
                (''NDEBUG'', Blank)],
             once = {''test.h''}, emitted = []\<rparr>"
    by (simp add: include_file_def test_h_def resolver_def unit_with_def no_includes_def
          eval_if_def expand_undefined operator_words_def fmdrop_fmupd)
  have inc1: "\<And>form h a b. no_includes form h a = Inr b \<Longrightarrow>
         fmlookup (macros b) ''NDEBUG'' = fmlookup (macros a) ''NDEBUG''"
    by (auto simp: no_includes_def)
  have inc2: "\<And>form h a b. no_includes form h a = Inr b \<Longrightarrow> emitted a = [] \<Longrightarrow> emitted b = []"
    by (auto simp: no_includes_def)
  have which: "test_h = basis_h \<and> ''NDEBUG'' \<noteq> ''SBIA_BASIS_H_''
      \<or> test_h = test_h \<and> ''NDEBUG'' \<noteq> ''SBIA_BASIS_TEST_H_''
          \<and> ''NDEBUG'' \<noteq> ''GTEST_USE_OWN_TR1_TUPLE'' \<and> ''NDEBUG'' \<noteq> ''GTEST_HAS_PTHREAD''"
    by simp
  from umbrella_headers_add_nothing [of test_h "''NDEBUG''" no_includes "\<lambda>ls. ls = []",
       OF which inc1 inc2 ran]
  show ?thesis using ran inc1 inc2 which by simp
qed

text \<open>
  Claim C9. Once \<^verbatim>\<open>SBIA_BASIS_TEST_H_\<close> is defined, reading \<^verbatim>\<open>test.h\<close>
  runs nothing but \<^verbatim>\<open>#pragma once\<close>: no header is included and no macro
  changes. So after a first reading, in which the included headers keep the guard
  defined, a second reading leaves the macros and the emitted text as they are.
\<close>

theorem include_guard_skips_body:
  "(fmlookup (macros s) ''SBIA_BASIS_TEST_H_'' \<noteq> None \<longrightarrow>
      include_file inc test_h s = Inr (s\<lparr>once := insert ''test.h'' (once s)\<rparr>))
   \<and> ((\<forall>form h a b. inc form h a = Inr b \<longrightarrow>
          fmlookup (macros a) ''SBIA_BASIS_TEST_H_'' \<noteq> None \<longrightarrow>
          fmlookup (macros b) ''SBIA_BASIS_TEST_H_'' \<noteq> None)
        \<and> include_file inc test_h s = Inr s1 \<longrightarrow>
      include_file inc test_h s1 = Inr (s1\<lparr>once := insert ''test.h'' (once s1)\<rparr>))"
proof (intro conjI impI)
  assume "fmlookup (macros s) ''SBIA_BASIS_TEST_H_'' \<noteq> None"
  then show "include_file inc test_h s = Inr (s\<lparr>once := insert ''test.h'' (once s)\<rparr>)"
    by (rule skip_when_guarded)
next
  assume both: "(\<forall>form h a b. inc form h a = Inr b \<longrightarrow>
          fmlookup (macros a) ''SBIA_BASIS_TEST_H_'' \<noteq> None \<longrightarrow>
          fmlookup (macros b) ''SBIA_BASIS_TEST_H_'' \<noteq> None)
        \<and> include_file inc test_h s = Inr s1"
  then have keep: "\<And>form h a b. inc form h a = Inr b \<Longrightarrow>
        fmlookup (macros a) ''SBIA_BASIS_TEST_H_'' \<noteq> None \<Longrightarrow>
        fmlookup (macros b) ''SBIA_BASIS_TEST_H_'' \<noteq> None"
    by blast
  from both have first: "include_file inc test_h s = Inr s1" ..
  show "include_file inc test_h s1 = Inr (s1\<lparr>once := insert ''test.h'' (once s1)\<rparr>)"
  proof (cases "''test.h'' \<in> once s")
    case True
    with first have "s1 = s"
      by (simp add: include_file_def test_h_def)
    with True have "''test.h'' \<in> once s1" by simp
    then have "insert ''test.h'' (once s1) = once s1"
      by (rule insert_absorb)
    with \<open>''test.h'' \<in> once s1\<close> show ?thesis
      by (simp add: include_file_def test_h_def)
  next
    case False
    with first have "run_all inc ''test.h'' (snd test_h) s = Inr s1"
      by (simp add: include_file_def test_h_def)
    with keep have "fmlookup (macros s1) ''SBIA_BASIS_TEST_H_'' \<noteq> None"
      by (rule guard_defined_after)
    then show ?thesis
      by (rule skip_when_guarded)
  qed
qed

theorem include_guard_skips_body_witness:
  "fmlookup (macros (unit_with [(''SBIA_BASIS_TEST_H_'', Blank), (''HAVE_PTHREAD'', Number 1)]))
      ''SBIA_BASIS_TEST_H_'' \<noteq> None
   \<and> include_file (\<lambda>form h a. Inl (Include_failed h)) test_h
        (unit_with [(''SBIA_BASIS_TEST_H_'', Blank), (''HAVE_PTHREAD'', Number 1)])
      = Inr \<lparr>macros = fmap_of_list [(''SBIA_BASIS_TEST_H_'', Blank), (''HAVE_PTHREAD'', Number 1)],
             once = {''test.h''}, emitted = []\<rparr>
   \<and> include_file no_includes test_h (unit_with [(''HAVE_PTHREAD'', Number 1)])
      = Inr \<lparr>macros = fmap_of_list [(''GTEST_HAS_PTHREAD'', Number 1),
                (''GTEST_USE_OWN_TR1_TUPLE'', Number 1), (''SBIA_BASIS_TEST_H_'', Blank),
                (''HAVE_PTHREAD'', Number 1)],
             once = {''test.h''}, emitted = []\<rparr>
   \<and> include_file no_includes test_h
        \<lparr>macros = fmap_of_list [(''GTEST_HAS_PTHREAD'', Number 1),
                (''GTEST_USE_OWN_TR1_TUPLE'', Number 1), (''SBIA_BASIS_TEST_H_'', Blank),
                (''HAVE_PTHREAD'', Number 1)],
             once = {''test.h''}, emitted = []\<rparr>
      = Inr \<lparr>macros = fmap_of_list [(''GTEST_HAS_PTHREAD'', Number 1),
                (''GTEST_USE_OWN_TR1_TUPLE'', Number 1), (''SBIA_BASIS_TEST_H_'', Blank),
                (''HAVE_PTHREAD'', Number 1)],
             once = {''test.h''}, emitted = []\<rparr>"
proof -
  have first: "include_file no_includes test_h (unit_with [(''HAVE_PTHREAD'', Number 1)])
      = Inr \<lparr>macros = fmap_of_list [(''GTEST_HAS_PTHREAD'', Number 1),
                (''GTEST_USE_OWN_TR1_TUPLE'', Number 1), (''SBIA_BASIS_TEST_H_'', Blank),
                (''HAVE_PTHREAD'', Number 1)],
             once = {''test.h''}, emitted = []\<rparr>"
    by (simp add: include_file_def test_h_def resolver_def unit_with_def no_includes_def
          eval_if_def expand_number expand_undefined fmdrop_fmupd)
  have keep: "\<forall>form h a b. no_includes form h a = Inr b \<longrightarrow>
          fmlookup (macros a) ''SBIA_BASIS_TEST_H_'' \<noteq> None \<longrightarrow>
          fmlookup (macros b) ''SBIA_BASIS_TEST_H_'' \<noteq> None"
    by (auto simp: no_includes_def)
  from include_guard_skips_body
         [of "unit_with [(''SBIA_BASIS_TEST_H_'', Blank), (''HAVE_PTHREAD'', Number 1)]"
             "\<lambda>form h a. Inl (Include_failed h)"]
       include_guard_skips_body
         [of "unit_with [(''HAVE_PTHREAD'', Number 1)]" no_includes
             "\<lparr>macros = fmap_of_list [(''GTEST_HAS_PTHREAD'', Number 1),
                (''GTEST_USE_OWN_TR1_TUPLE'', Number 1), (''SBIA_BASIS_TEST_H_'', Blank),
                (''HAVE_PTHREAD'', Number 1)],
             once = {''test.h''}, emitted = []\<rparr>"]
       first keep
  show ?thesis
    by (simp add: unit_with_def)
qed

end
